theory Spec2Isabelle
  imports Main
begin

section \<open>The transition table (state.go)\<close>

text \<open>
  \<open>State\<close> and \<open>Event\<close> are Go named types over \<open>int\<close>. The program only compares
  them and uses them as map keys, never computes with them, so they are integers here.
\<close>

type_synonym State = int
type_synonym Event = int

text \<open>
  The three hooks of a \<open>Transition\<close> are Go function values, so a hook may be \<open>nil\<close>
  (\<open>None\<close>) and may read and write whatever its closure captured. That captured
  environment is the type parameter \<open>'w\<close>: a guard reads it and may change it, the two
  handlers change it. Hooks are taken not to call back into the machine that runs them
  and not to rewrite the table (both are left to the caller by the repository).
\<close>

record 'w Transition =
  Guard :: "(State \<Rightarrow> Event \<Rightarrow> 'w \<Rightarrow> bool \<times> 'w) option"
  IsFinal :: bool
  OnFail :: "(State \<Rightarrow> Event \<Rightarrow> 'w \<Rightarrow> 'w) option"
  OnSuccess :: "(State \<Rightarrow> Event \<Rightarrow> 'w \<Rightarrow> 'w) option"
  To :: State

text \<open>
  \<open>map[State]map[Event]*Transition\<close>. A Go map is enumerated by \<open>range\<close>, so the table is
  an association list, entries in the order a \<open>range\<close> visits them; lookup is \<open>map_of\<close>.
  The inner value is a pointer: \<open>None\<close> is the \<open>nil\<close> pointer. A \<open>nil\<close> map reads and
  enumerates like the empty one, so both are \<open>[]\<close>.
\<close>

type_synonym 'w EventTable = "(Event \<times> 'w Transition option) list"
type_synonym 'w StateTransitionTable = "(State \<times> 'w EventTable) list"

definition GetTransition ::
    "'w StateTransitionTable \<Rightarrow> State \<Rightarrow> Event \<Rightarrow> 'w Transition option" where
  "GetTransition stt s e =
     (case map_of stt s of
        None \<Rightarrow> None
      | Some events \<Rightarrow> (case map_of events e of None \<Rightarrow> None | Some tran \<Rightarrow> tran))"

text \<open>The \<open>range\<close> loop of \<open>GetEventsForState\<close>, appending each key to \<open>events\<close>.\<close>

definition GetEventsForState :: "'w StateTransitionTable \<Rightarrow> State \<Rightarrow> Event list" where
  "GetEventsForState stt s =
     (case map_of stt s of
        None \<Rightarrow> []
      | Some evs \<Rightarrow> fold (\<lambda>(event, _) events. events @ [event]) evs [])"

definition GetStatesForEvent :: "'w StateTransitionTable \<Rightarrow> Event \<Rightarrow> State list" where
  "GetStatesForEvent stt e =
     (if length stt = 0 then []
      else fold (\<lambda>(state, events) states.
                   fold (\<lambda>(event, _) states. if event = e then states @ [state] else states)
                        events states)
                stt [])"

section \<open>Errors\<close>

text \<open>One constructor for each error struct, with the fields the struct carries.\<close>

datatype error =
    is_ErrMissingStates: ErrMissingStates string
  | is_ErrStateNotDefined: ErrStateNotDefined State string
  | is_ErrMachineStopped: ErrMachineStopped "Event option" string
  | is_ErrMachineStarted: ErrMachineStarted string
  | is_ErrMissingTransition: ErrMissingTransition State Event string
  | is_ErrMachineNotStarted: ErrMachineNotStarted string
  | is_ErrMachineNotStopped: ErrMachineNotStopped string

section \<open>The machine\<close>

record HistoryRecord =
  State :: State
  Event :: Event

text \<open>
  \<open>endevt\<close> is a pointer to the \<open>Event\<close> field of the last history record. The log is
  only ever appended to or dropped whole, so what the pointer reads never changes after
  it is taken: the field holds the event itself, \<open>None\<close> for \<open>nil\<close>.
\<close>

record 'w Machine =
  States :: "'w StateTransitionTable"
  curr :: State
  done' :: bool
  endevt :: "Event option"
  hist :: "HistoryRecord list"
  initial :: State
  started :: bool

text \<open>\<open>&cism.Machine{States: stt}\<close>: every unexported field has its zero value.\<close>

definition new_Machine :: "'w StateTransitionTable \<Rightarrow> 'w Machine" where
  "new_Machine stt =
     \<lparr>States = stt, curr = 0, done' = False, endevt = None, hist = [], initial = 0,
      started = False\<rparr>"

definition Start :: "'w Machine \<Rightarrow> State \<Rightarrow> error option \<times> 'w Machine" where
  "Start m s =
     (if length (States m) = 0 then (Some (ErrMissingStates ''no states set''), m)
      else if map_of (States m) s = None then
        (Some (ErrStateNotDefined s ''start state not defined in states''), m)
      else if done' m then
        (Some (ErrMachineStopped (endevt m) ''machine is done and cannot be started''), m)
      else if started m then (Some (ErrMachineStarted ''machine has already started''), m)
      else (None, m\<lparr>curr := s, done' := False, initial := s, started := True\<rparr>))"

definition stop :: "'w Machine \<Rightarrow> 'w Machine" where
  "stop m =
     (let histlen = length (hist m);
          m1 = (if histlen > 0 then m\<lparr>endevt := Some (Event (hist m ! (histlen - 1)))\<rparr>
                else m)
      in m1\<lparr>done' := True\<rparr>)"

definition Stop :: "'w Machine \<Rightarrow> 'w Machine" where
  "Stop m = stop m"

definition Reset :: "'w Machine \<Rightarrow> error option \<times> 'w Machine" where
  "Reset m =
     (if \<not> done' m then (Some (ErrMachineNotStopped ''machine has not stopped''), m)
      else (None, m\<lparr>done' := False, endevt := None, hist := [], curr := initial m,
                     started := False\<rparr>))"

definition Current :: "'w Machine \<Rightarrow> State" where
  "Current m = curr m"

definition History :: "'w Machine \<Rightarrow> HistoryRecord list" where
  "History m = take (length (hist m)) (hist m)"

text \<open>
  Every call of a hook is written to a trace, so that how often and with which arguments
  a hook ran can be stated.
\<close>

datatype hook_call =
    is_GuardCall: GuardCall State Event
  | is_OnSuccessCall: OnSuccessCall State Event
  | is_OnFailCall: OnFailCall State Event

text \<open>\<open>tran.Guard == nil || tran.Guard(currstate, e)\<close>: the verdict, the environment the
  guard leaves, and the calls made.\<close>

definition guard_passes ::
    "'w Transition \<Rightarrow> State \<Rightarrow> Event \<Rightarrow> 'w \<Rightarrow> bool \<times> 'w \<times> hook_call list" where
  "guard_passes tran s e w =
     (case Guard tran of
        None \<Rightarrow> (True, w, [])
      | Some g \<Rightarrow> (let (b, w') = g s e w in (b, w', [GuardCall s e])))"

definition transition ::
    "'w Machine \<Rightarrow> 'w Transition \<Rightarrow> Event \<Rightarrow> 'w \<Rightarrow> 'w Machine \<times> 'w \<times> hook_call list" where
  "transition m tran e w =
     (let currstate = curr m;
          (pass, w1, c1) = guard_passes tran currstate e w
      in if pass then
           (let m1 = m\<lparr>hist := hist m @ [\<lparr>State = currstate, Event = e\<rparr>]\<rparr>;
                m2 = m1\<lparr>curr := To tran\<rparr>;
                (w2, c2) = (case OnSuccess tran of
                              None \<Rightarrow> (w1, [])
                            | Some f \<Rightarrow> (f currstate e w1, [OnSuccessCall currstate e]));
                m3 = (if IsFinal tran then stop m2 else m2)
            in (m3, w2, c1 @ c2))
         else
           (case OnFail tran of
              None \<Rightarrow> (m, w1, c1)
            | Some f \<Rightarrow> (m, f currstate e w1, c1 @ [OnFailCall currstate e])))"

definition Send ::
    "'w Machine \<Rightarrow> Event \<Rightarrow> 'w \<Rightarrow> error option \<times> 'w Machine \<times> 'w \<times> hook_call list" where
  "Send m e w =
     (if \<not> started m then (Some (ErrMachineNotStarted ''machine has not started''), m, w, [])
      else if done' m then
        (Some (ErrMachineStopped (endevt m) ''machine is done and not accepting transitions''),
         m, w, [])
      else
        (case GetTransition (States m) (curr m) e of
           Some tran \<Rightarrow> (let (m', w', cs) = transition m tran e w in (None, m', w', cs))
         | None \<Rightarrow>
             (Some (ErrMissingTransition (curr m) e
                      ''no transition found for event in current state''),
              m, w, [])))"

section \<open>The caller's view\<close>

text \<open>
  The four operations a caller can apply to a machine, run on the machine and the hooks'
  environment. \<open>Start\<close>, \<open>Stop\<close> and \<open>Reset\<close> call no function value, so they leave
  the environment alone and their trace is empty.
\<close>

datatype op = OpStart State | OpSend Event | OpStop | OpReset

fun exec ::
    "op \<Rightarrow> 'w Machine \<times> 'w \<Rightarrow> (error option \<times> hook_call list) \<times> 'w Machine \<times> 'w" where
  "exec (OpStart s) (m, w) = (let (err, m') = Start m s in ((err, []), m', w))"
| "exec (OpSend e) (m, w) = (let (err, m', w', cs) = Send m e w in ((err, cs), m', w'))"
| "exec OpStop (m, w) = ((None, []), Stop m, w)"
| "exec OpReset (m, w) = (let (err, m') = Reset m in ((err, []), m', w))"

text \<open>An operation failed with an error of the given kind.\<close>

definition fails_with :: "(error \<Rightarrow> bool) \<Rightarrow> error option \<Rightarrow> bool" where
  "fails_with kind r = (case r of None \<Rightarrow> False | Some err \<Rightarrow> kind err)"

text \<open>
  The three lifecycle states, read off the two flags. A machine whose \<open>done\<close> flag is
  set is stopped whatever \<open>started\<close> says: \<open>Start\<close> tests \<open>done\<close> first and refuses
  it with \<open>ErrMachineStopped\<close>, and \<open>Reset\<close> tests nothing else and accepts it.
\<close>

datatype lifecycle = Unstarted | Running | Stopped

definition lifecycle_of :: "'w Machine \<Rightarrow> lifecycle" where
  "lifecycle_of m = (if done' m then Stopped else if started m then Running else Unstarted)"

section \<open>The example of the package documentation\<close>

text \<open>
  States \<open>Begin\<close>, \<open>Middle\<close>, \<open>End\<close> and events \<open>SetupDone\<close>, \<open>WorkComplete\<close> are
  \<open>iota\<close> constants. The hooks capture the variable \<open>workReallyComplete\<close> and print
  to standard output.
\<close>

definition Begin :: State where "Begin = 0"
definition Middle :: State where "Middle = 1"
definition End :: State where "End = 2"
definition SetupDone :: Event where "SetupDone = 0"
definition WorkComplete :: Event where "WorkComplete = 1"

record world =
  workReallyComplete :: bool
  printed :: "string list"

definition setup_done :: "world Transition" where
  "setup_done =
     \<lparr>Guard = None, IsFinal = False, OnFail = None,
      OnSuccess = Some (\<lambda>s e w. w\<lparr>printed := printed w @
        [''left 'Begin' state and entered 'Middle' state'']\<rparr>),
      To = Middle\<rparr>"

definition work_complete :: "world Transition" where
  "work_complete =
     \<lparr>Guard = Some (\<lambda>s e w. (workReallyComplete w, w)),
      IsFinal = True,
      OnFail = Some (\<lambda>s e w. w\<lparr>workReallyComplete := True\<rparr>),
      OnSuccess = Some (\<lambda>s e w. w\<lparr>printed := printed w @
        [''left 'Middle' state and entered 'End' state'']\<rparr>),
      To = End\<rparr>"

definition stt :: "world StateTransitionTable" where
  "stt =
     [(Begin, [(SetupDone, Some setup_done)]),
      (Middle, [(WorkComplete, Some work_complete)]),
      (End, [])]"

definition machine :: "world Machine" where
  "machine = new_Machine stt"

text \<open>\<open>workReallyComplete := false\<close> and nothing printed yet.\<close>

definition world0 :: world where
  "world0 = \<lparr>workReallyComplete = False, printed = []\<rparr>"

text \<open>The machine after \<open>machine.Start(Begin)\<close>, and after \<open>machine.Send(SetupDone)\<close>.\<close>

definition machine_begin :: "world Machine" where
  "machine_begin = snd (Start machine Begin)"

definition machine_middle :: "world Machine" where
  "machine_middle = fst (snd (Send machine_begin SetupDone world0))"

section \<open>The machines of machine\_test.go\<close>

text \<open>\<open>&cism.Transition{}\<close>: no hook, not final, destination the zero state.\<close>

definition Transition_zero :: "unit Transition" where
  "Transition_zero = \<lparr>Guard = None, IsFinal = False, OnFail = None, OnSuccess = None, To = 0\<rparr>"

text \<open>\<open>shouldSucceedSend\<close>: state 1 has event 1 bound to \<open>&cism.Transition{}\<close>.\<close>

definition machine_plain :: "unit Machine" where
  "machine_plain = new_Machine [(1, [(1, Some Transition_zero)])]"

text \<open>\<open>shouldSucceedHistory\<close>: state 1 has event 1 bound to \<open>&cism.Transition{To: state2}\<close>.\<close>

definition machine_to2 :: "unit Machine" where
  "machine_to2 = new_Machine [(1, [(1, Some (Transition_zero\<lparr>To := 2\<rparr>))])]"

text \<open>\<open>shouldErrSendNoTran\<close>: state 1 has event 1 bound to \<open>nil\<close>.\<close>

definition machine_nil :: "unit Machine" where
  "machine_nil = new_Machine [(1, [(1, None)])]"

text \<open>\<open>shouldHandleTranGuardFail\<close> with its \<open>OnFail\<close> hook left out.\<close>

definition blocked :: "unit Transition" where
  "blocked = Transition_zero\<lparr>Guard := Some (\<lambda>s e w. (False, w)), To := 2\<rparr>"

definition machine_blocked :: "unit Machine" where
  "machine_blocked = new_Machine [(1, [(1, Some blocked)])]"

text \<open>\<open>shouldErrStartStatesMissing\<close>: \<open>&cism.Machine{}\<close>, no table.\<close>

definition machine_empty :: "unit Machine" where
  "machine_empty = new_Machine []"

section \<open>Auxiliary facts\<close>

lemma range_loop_keys:
  "fold (\<lambda>(event, _) events. events @ [event]) evs acc = acc @ map fst evs"
  by (induction evs arbitrary: acc) (auto split: prod.splits)

lemma not_key_iff: "(map_of t k = None) = (k \<notin> fst ` set t)"
  by (simp add: map_of_eq_None_iff)

lemma stop_fields:
  "done' (stop m) \<and> started (stop m) = started m \<and> curr (stop m) = curr m \<and>
   hist (stop m) = hist m \<and> States (stop m) = States m \<and> initial (stop m) = initial m"
  by (simp add: stop_def Let_def)

lemma stop_endevt:
  "endevt (stop m) = (if hist m = [] then endevt m else Some (Event (last (hist m))))"
  by (simp add: stop_def Let_def last_conv_nth)

lemma stop_stop: "stop (stop m) = stop m"
  by (simp add: stop_def Let_def)

lemma Send_stopped:
  "started m \<Longrightarrow> done' m \<Longrightarrow>
   Send m e w =
     (Some (ErrMachineStopped (endevt m) ''machine is done and not accepting transitions''),
      m, w, [])"
  by (simp add: Send_def)

lemma Send_running:
  "started m \<Longrightarrow> \<not> done' m \<Longrightarrow> GetTransition (States m) (curr m) e = Some tran \<Longrightarrow>
   Send m e w = (let (m', w', cs) = transition m tran e w in (None, m', w', cs))"
  by (simp add: Send_def)

lemma transition_pass:
  "guard_passes tran (curr m) e w = (True, w1, c1) \<Longrightarrow>
   transition m tran e w =
     (let m2 = m\<lparr>hist := hist m @ [\<lparr>State = curr m, Event = e\<rparr>], curr := To tran\<rparr>
      in (if IsFinal tran then stop m2 else m2,
          case OnSuccess tran of None \<Rightarrow> w1 | Some f \<Rightarrow> f (curr m) e w1,
          c1 @ (case OnSuccess tran of None \<Rightarrow> [] | Some f \<Rightarrow> [OnSuccessCall (curr m) e])))"
  by (simp add: transition_def Let_def split: option.splits)

lemma transition_block:
  "guard_passes tran (curr m) e w = (False, w1, c1) \<Longrightarrow>
   transition m tran e w =
     (m, case OnFail tran of None \<Rightarrow> w1 | Some f \<Rightarrow> f (curr m) e w1,
      c1 @ (case OnFail tran of None \<Rightarrow> [] | Some f \<Rightarrow> [OnFailCall (curr m) e]))"
  by (simp add: transition_def Let_def split: option.splits)

lemma guard_passes_calls:
  "guard_passes tran s e w = (b, w1, c1) \<Longrightarrow>
   filter is_OnSuccessCall c1 = [] \<and> filter is_OnFailCall c1 = []"
  by (auto simp: guard_passes_def split: option.splits prod.splits)

lemma guard_passes_verdict:
  "fst (guard_passes tran s e w) = (case Guard tran of None \<Rightarrow> True | Some g \<Rightarrow> fst (g s e w))"
  by (simp add: guard_passes_def split: option.splits prod.splits)

lemmas example_defs =
  machine_def new_Machine_def stt_def world0_def
  Begin_def Middle_def End_def SetupDone_def WorkComplete_def

lemma machine_begin_eq:
  "machine_begin =
     \<lparr>States = stt, curr = Begin, done' = False, endevt = None, hist = [], initial = Begin,
      started = True\<rparr>"
  by (simp add: machine_begin_def Start_def example_defs)

lemma machine_begin_SetupDone:
  "GetTransition (States machine_begin) (curr machine_begin) SetupDone = Some setup_done"
  by (simp add: machine_begin_eq GetTransition_def stt_def Begin_def Middle_def End_def
      SetupDone_def)

lemma machine_begin_WorkComplete:
  "GetTransition (States machine_begin) (curr machine_begin) WorkComplete = None"
  by (simp add: machine_begin_eq GetTransition_def stt_def Begin_def Middle_def End_def
      SetupDone_def WorkComplete_def)

lemma machine_middle_eq:
  "machine_middle =
     \<lparr>States = stt, curr = Middle, done' = False, endevt = None,
      hist = [\<lparr>State = Begin, Event = SetupDone\<rparr>], initial = Begin, started = True\<rparr>"
  by (simp add: machine_middle_def Send_def machine_begin_SetupDone transition_def
      guard_passes_def)
     (simp add: machine_begin_eq setup_done_def)

lemma machine_middle_WorkComplete:
  "GetTransition (States machine_middle) (curr machine_middle) WorkComplete = Some work_complete"
  by (simp add: machine_middle_eq GetTransition_def stt_def Begin_def Middle_def End_def
      WorkComplete_def)

lemma machine_middle_final:
  "Send machine_middle WorkComplete (world0\<lparr>workReallyComplete := True\<rparr>) =
     (None,
      \<lparr>States = stt, curr = End, done' = True, endevt = Some WorkComplete,
       hist = [\<lparr>State = Begin, Event = SetupDone\<rparr>, \<lparr>State = Middle, Event = WorkComplete\<rparr>],
       initial = Begin, started = True\<rparr>,
      \<lparr>workReallyComplete = True,
       printed = [''left 'Middle' state and entered 'End' state'']\<rparr>,
      [GuardCall Middle WorkComplete, OnSuccessCall Middle WorkComplete])"
proof -
  have s: "started machine_middle" "\<not> done' machine_middle"
    by (simp_all add: machine_middle_eq)
  have g: "guard_passes work_complete (curr machine_middle) WorkComplete
             (world0\<lparr>workReallyComplete := True\<rparr>) =
           (True, world0\<lparr>workReallyComplete := True\<rparr>, [GuardCall Middle WorkComplete])"
    by (simp add: guard_passes_def work_complete_def machine_middle_eq)
  show ?thesis
    by (simp add: Send_running [OF s machine_middle_WorkComplete] transition_pass [OF g])
       (simp add: machine_middle_eq work_complete_def world0_def stop_def)
qed

lemmas test_defs =
  machine_plain_def machine_to2_def machine_nil_def machine_blocked_def machine_empty_def
  new_Machine_def Transition_zero_def blocked_def

section \<open>Properties of the machine\<close>

text \<open>
  C1, as amended. A started, not stopped machine receives an event whose transition is
  defined and whose guard is absent or returns true. Then \<open>Send\<close> returns no error,
  appends exactly one record to the log, made of the state being left and the event, and
  moves to the transition's \<open>To\<close>. The \<open>OnSuccess\<close> hook is called exactly once, with the
  state being left and the event, when the transition has one; when the field is \<open>nil\<close>
  no such call is made. \<open>OnFail\<close> is never called.
\<close>

theorem Send_guard_pass:
  assumes "started m" and "\<not> done' m"
    and "GetTransition (States m) (curr m) e = Some tran"
    and "case Guard tran of None \<Rightarrow> True | Some g \<Rightarrow> fst (g (curr m) e w)"
  shows "\<exists>m' w' cs. Send m e w = (None, m', w', cs) \<and>
           hist m' = hist m @ [\<lparr>State = curr m, Event = e\<rparr>] \<and>
           curr m' = To tran \<and>
           filter is_OnSuccessCall cs =
             (case OnSuccess tran of None \<Rightarrow> [] | Some f \<Rightarrow> [OnSuccessCall (curr m) e]) \<and>
           filter is_OnFailCall cs = []"
proof -
  from assms(4) obtain w1 c1 where g: "guard_passes tran (curr m) e w = (True, w1, c1)"
    by (cases "guard_passes tran (curr m) e w") (simp add: guard_passes_verdict [symmetric])
  note calls = guard_passes_calls [OF g]
  show ?thesis
    using calls
    by (cases "OnSuccess tran")
       (simp_all add: Send_running [OF assms(1-3)] transition_pass [OF g] Let_def stop_fields)
qed

theorem Send_guard_pass_witness:
  "started machine_begin \<and> \<not> done' machine_begin \<and>
   GetTransition (States machine_begin) (curr machine_begin) SetupDone = Some setup_done \<and>
   Guard setup_done = None \<and>
   (\<exists>m' w' cs. Send machine_begin SetupDone world0 = (None, m', w', cs) \<and>
      hist m' = [\<lparr>State = Begin, Event = SetupDone\<rparr>] \<and> curr m' = Middle \<and>
      filter is_OnSuccessCall cs = [OnSuccessCall Begin SetupDone])"
proof -
  have h1: "started machine_begin" and h2: "\<not> done' machine_begin"
    by (simp_all add: machine_begin_eq)
  note h3 = machine_begin_SetupDone
  have g: "Guard setup_done = None"
    by (simp add: setup_done_def)
  then have h4: "case Guard setup_done of None \<Rightarrow> True
                 | Some g \<Rightarrow> fst (g (curr machine_begin) SetupDone world0)"
    by simp
  have v: "hist machine_begin = []" "curr machine_begin = Begin" "To setup_done = Middle"
    "\<exists>f. OnSuccess setup_done = Some f"
    by (simp_all add: machine_begin_eq setup_done_def)
  from Send_guard_pass [OF h1 h2 h3 h4] v h1 h2 h3 g show ?thesis
    by auto
qed

theorem Send_guard_pass_no_hook:
  "started (snd (Start machine_plain 1)) \<and> \<not> done' (snd (Start machine_plain 1)) \<and>
   GetTransition (States (snd (Start machine_plain 1))) (curr (snd (Start machine_plain 1))) 1
     = Some Transition_zero \<and>
   Guard Transition_zero = None \<and>
   snd (snd (snd (Send (snd (Start machine_plain 1)) 1 ()))) = [] \<and>
   length (filter is_OnSuccessCall (snd (snd (snd (Send (snd (Start machine_plain 1)) 1 ())))))
     \<noteq> 1"
  by (simp add: Start_def Send_def GetTransition_def transition_def guard_passes_def test_defs)

text \<open>
  C2. The comment on \<open>HistoryRecord.State\<close> reads "state that was transitioned to", but
  \<open>transition\<close> builds the record from \<open>currstate\<close>, read before \<open>curr\<close> is assigned.
  In the machine of \<open>shouldSucceedHistory\<close>, started in state 1, event 1 leads to state
  2, and the one record of the log holds state 1, the state that was left.
\<close>

theorem History_holds_state_left:
  "fst (Send (snd (Start machine_to2 1)) 1 ()) = None \<and>
   Current (fst (snd (Send (snd (Start machine_to2 1)) 1 ()))) = 2 \<and>
   History (fst (snd (Send (snd (Start machine_to2 1)) 1 ()))) = [\<lparr>State = 1, Event = 1\<rparr>] \<and>
   map State (History (fst (snd (Send (snd (Start machine_to2 1)) 1 ())))) \<noteq> [2]"
  by (simp add: Start_def Send_def GetTransition_def transition_def guard_passes_def
      Current_def History_def test_defs)

text \<open>
  C3. Whenever \<open>Start\<close>, \<open>Send\<close> or \<open>Reset\<close> returns an error, the machine it returns
  is the machine it was given, field for field: table, current and initial state, both
  flags, terminal event and log. A failing \<open>Send\<close> also calls no hook and leaves the
  hooks' environment alone.
\<close>

theorem failed_operation_changes_nothing:
  "(fst (Start m s) \<noteq> None \<longrightarrow> snd (Start m s) = m) \<and>
   (fst (Send m e w) \<noteq> None \<longrightarrow> snd (Send m e w) = (m, w, [])) \<and>
   (fst (Reset m) \<noteq> None \<longrightarrow> snd (Reset m) = m)"
proof (intro conjI impI)
  assume "fst (Start m s) \<noteq> None"
  then show "snd (Start m s) = m"
    by (simp add: Start_def split: if_splits)
next
  assume "fst (Send m e w) \<noteq> None"
  then show "snd (Send m e w) = (m, w, [])"
    by (simp add: Send_def split: if_splits option.splits prod.splits)
next
  assume "fst (Reset m) \<noteq> None"
  then show "snd (Reset m) = m"
    by (simp add: Reset_def split: if_splits)
qed

theorem failed_operation_changes_nothing_witness:
  "fst (Start machine_begin Middle) \<noteq> None \<and>
   snd (Start machine_begin Middle) = machine_begin \<and>
   fst (Send machine_begin WorkComplete world0) \<noteq> None \<and>
   snd (Send machine_begin WorkComplete world0) = (machine_begin, world0, []) \<and>
   fst (Reset machine_begin) \<noteq> None \<and>
   snd (Reset machine_begin) = machine_begin"
proof -
  have h1: "fst (Start machine_begin Middle) \<noteq> None"
    by (simp add: Start_def machine_begin_eq stt_def Begin_def Middle_def End_def)
  have h2: "fst (Send machine_begin WorkComplete world0) \<noteq> None"
    by (simp add: Send_def machine_begin_WorkComplete)
  have h3: "fst (Reset machine_begin) \<noteq> None"
    by (simp add: Reset_def machine_begin_eq)
  from failed_operation_changes_nothing [of machine_begin Middle WorkComplete world0] h1 h2 h3
  show ?thesis by blast
qed

text \<open>
  C4, as amended. A machine counts as stopped when its \<open>done\<close> flag is set, which is
  what \<open>Start\<close> and \<open>Reset\<close> test. One operation takes a machine that is not stopped
  to a stopped one only if it is an explicit \<open>Stop\<close>, which does so from the unstarted
  state as well as from the running one, or a \<open>Send\<close> on a running machine that applies
  a final transition whose guard is absent or returns true. In particular \<open>Start\<close>,
  \<open>Reset\<close> and a \<open>Send\<close> on an unstarted machine never enter the stopped state.
\<close>

theorem stopped_entered_by_Stop_or_final:
  assumes "exec op (m, w) = ((err, cs), (m', w'))"
    and "lifecycle_of m \<noteq> Stopped" and "lifecycle_of m' = Stopped"
  shows "op = OpStop \<or>
         (lifecycle_of m = Running \<and> err = None \<and>
          (\<exists>e tran. op = OpSend e \<and> GetTransition (States m) (curr m) e = Some tran \<and>
             IsFinal tran \<and> fst (guard_passes tran (curr m) e w)))"
proof (cases op)
  case (OpStart s)
  with assms show ?thesis
    by (auto simp: Start_def lifecycle_of_def split: if_splits)
next
  case (OpSend e)
  from assms(2) have nd: "\<not> done' m"
    by (simp add: lifecycle_of_def split: if_splits)
  from assms(3) have d': "done' m'"
    by (simp add: lifecycle_of_def split: if_splits)
  from assms(1) OpSend have s: "Send m e w = (err, m', w', cs)"
    by (simp split: prod.splits)
  have st: "started m"
    using s d' nd by (auto simp: Send_def split: if_splits)
  obtain tran where t: "GetTransition (States m) (curr m) e = Some tran"
    using s d' nd st by (cases "GetTransition (States m) (curr m) e") (auto simp: Send_def)
  from s t st nd have tr: "transition m tran e w = (m', w', cs)" and e: "err = None"
    by (auto simp: Send_def split: prod.splits)
  obtain b w1 c1 where g: "guard_passes tran (curr m) e w = (b, w1, c1)"
    by (cases "guard_passes tran (curr m) e w")
  have b
  proof (rule ccontr)
    assume "\<not> b"
    with g tr have "m' = m" by (simp add: transition_block)
    with d' nd show False by simp
  qed
  with g tr d' nd have "IsFinal tran"
    by (auto simp: transition_pass Let_def split: if_splits)
  with \<open>b\<close> g t e st nd OpSend show ?thesis
    by (simp add: lifecycle_of_def)
next
  case OpStop
  then show ?thesis by simp
next
  case OpReset
  with assms show ?thesis
    by (auto simp: Reset_def lifecycle_of_def split: if_splits)
qed

theorem stopped_entered_by_Stop_or_final_witness:
  "lifecycle_of machine_middle \<noteq> Stopped \<and>
   lifecycle_of
     (fst (snd (exec (OpSend WorkComplete)
                  (machine_middle, world0\<lparr>workReallyComplete := True\<rparr>)))) = Stopped \<and>
   OpSend WorkComplete \<noteq> OpStop \<and>
   lifecycle_of machine_middle = Running \<and>
   (\<exists>tran. GetTransition (States machine_middle) (curr machine_middle) WorkComplete
             = Some tran \<and> IsFinal tran)"
proof -
  let ?w = "world0\<lparr>workReallyComplete := True\<rparr>"
  obtain m' w' cs where s: "Send machine_middle WorkComplete ?w = (None, m', w', cs)"
    and d: "done' m'"
    by (simp add: machine_middle_final)
  from s have h1: "exec (OpSend WorkComplete) (machine_middle, ?w) = ((None, cs), (m', w'))"
    by simp
  have h2: "lifecycle_of machine_middle \<noteq> Stopped"
    by (simp add: lifecycle_of_def machine_middle_eq)
  from d have h3: "lifecycle_of m' = Stopped"
    by (simp add: lifecycle_of_def)
  from stopped_entered_by_Stop_or_final [OF h1 h2 h3] h1 h2 h3
  show ?thesis by auto
qed

theorem Stop_enters_stopped_from_unstarted:
  "lifecycle_of machine = Unstarted \<and>
   exec OpStop (machine, world0) = ((None, []), Stop machine, world0) \<and>
   lifecycle_of (Stop machine) = Stopped \<and>
   fst (Start (Stop machine) Begin) =
     Some (ErrMachineStopped None ''machine is done and cannot be started'') \<and>
   fst (Reset (Stop machine)) = None"
  by (simp add: lifecycle_of_def Stop_def stop_def Start_def Reset_def machine_def
      new_Machine_def stt_def)

text \<open>
  C5, as amended. A started, not stopped machine receives an event whose transition is
  defined and whose guard returns false. Then \<open>Send\<close> returns no error and hands back
  the machine unchanged, so current state and log stay as they were. The \<open>OnFail\<close> hook
  is called exactly once, with the current state and the event, when the transition has
  one; when the field is \<open>nil\<close> no such call is made. \<open>OnSuccess\<close> is never called.
\<close>

theorem Send_guard_fail:
  assumes "started m" and "\<not> done' m"
    and "GetTransition (States m) (curr m) e = Some tran"
    and "Guard tran = Some g" and "\<not> fst (g (curr m) e w)"
  shows "\<exists>w' cs. Send m e w = (None, m, w', cs) \<and>
           filter is_OnFailCall cs =
             (case OnFail tran of None \<Rightarrow> [] | Some f \<Rightarrow> [OnFailCall (curr m) e]) \<and>
           filter is_OnSuccessCall cs = []"
proof -
  from assms(4,5) obtain w1 c1 where g: "guard_passes tran (curr m) e w = (False, w1, c1)"
    by (cases "guard_passes tran (curr m) e w") (simp add: guard_passes_def split: prod.splits)
  note calls = guard_passes_calls [OF g]
  show ?thesis
    using calls
    by (cases "OnFail tran")
       (simp_all add: Send_running [OF assms(1-3)] transition_block [OF g])
qed

theorem Send_guard_fail_witness:
  "started machine_middle \<and> \<not> done' machine_middle \<and>
   GetTransition (States machine_middle) (curr machine_middle) WorkComplete
     = Some work_complete \<and>
   (\<exists>g. Guard work_complete = Some g \<and> \<not> fst (g (curr machine_middle) WorkComplete world0)) \<and>
   (\<exists>w' cs. Send machine_middle WorkComplete world0 = (None, machine_middle, w', cs) \<and>
      filter is_OnFailCall cs = [OnFailCall Middle WorkComplete])"
proof -
  have h1: "started machine_middle" and h2: "\<not> done' machine_middle"
    by (simp_all add: machine_middle_eq)
  note h3 = machine_middle_WorkComplete
  have h4: "Guard work_complete = Some (\<lambda>s e w. (workReallyComplete w, w))"
    by (simp add: work_complete_def)
  have h5: "\<not> fst ((\<lambda>s e w. (workReallyComplete w, w)) (curr machine_middle) WorkComplete world0)"
    by (simp add: world0_def)
  have v: "curr machine_middle = Middle" "\<exists>f. OnFail work_complete = Some f"
    by (simp_all add: machine_middle_eq work_complete_def)
  from Send_guard_fail [OF h1 h2 h3 h4 h5] v h1 h2 h3 h4 h5 show ?thesis
    by auto
qed

theorem Send_guard_fail_no_hook:
  "started (snd (Start machine_blocked 1)) \<and> \<not> done' (snd (Start machine_blocked 1)) \<and>
   GetTransition (States (snd (Start machine_blocked 1))) (curr (snd (Start machine_blocked 1))) 1
     = Some blocked \<and>
   fst (guard_passes blocked (curr (snd (Start machine_blocked 1))) 1 ()) = False \<and>
   fst (Send (snd (Start machine_blocked 1)) 1 ()) = None \<and>
   snd (snd (snd (Send (snd (Start machine_blocked 1)) 1 ()))) = [GuardCall 1 1] \<and>
   length (filter is_OnFailCall (snd (snd (snd (Send (snd (Start machine_blocked 1)) 1 ())))))
     \<noteq> 1"
  by (simp add: Start_def Send_def GetTransition_def transition_def guard_passes_def test_defs)

text \<open>
  C6. A started, not stopped machine receives an event \<open>e\<close> whose transition is defined,
  is final, and has a guard that is absent or returns true. Then \<open>Send\<close> returns no error
  and leaves the machine stopped, and from then on every \<open>Send\<close>, whatever its event,
  fails with \<open>ErrMachineStopped\<close> carrying \<open>e\<close> as the final event, calls no hook and
  hands back the same stopped machine, so the next \<open>Send\<close> fails in the same way.
\<close>

theorem Send_final_stops:
  assumes "started m" and "\<not> done' m"
    and "GetTransition (States m) (curr m) e = Some tran"
    and "IsFinal tran"
    and "case Guard tran of None \<Rightarrow> True | Some g \<Rightarrow> fst (g (curr m) e w)"
  shows "\<exists>m' w' cs. Send m e w = (None, m', w', cs) \<and>
           lifecycle_of m' = Stopped \<and>
           (\<forall>e' v. \<exists>msg. Send m' e' v = (Some (ErrMachineStopped (Some e) msg), m', v, []))"
proof -
  from assms(5) obtain w1 c1 where g: "guard_passes tran (curr m) e w = (True, w1, c1)"
    by (cases "guard_passes tran (curr m) e w") (simp add: guard_passes_verdict [symmetric])
  define m' where "m' = stop (m\<lparr>hist := hist m @ [\<lparr>State = curr m, Event = e\<rparr>], curr := To tran\<rparr>)"
  have s: "\<exists>w' cs. Send m e w = (None, m', w', cs)"
    by (simp add: Send_running [OF assms(1-3)] transition_pass [OF g] Let_def assms(4) m'_def)
  have d: "done' m'" "started m'"
    by (simp_all add: m'_def stop_fields assms(1))
  have ev: "endevt m' = Some e"
    by (simp add: m'_def stop_endevt)
  from d have "lifecycle_of m' = Stopped"
    by (simp add: lifecycle_of_def)
  moreover have "\<forall>e' v. \<exists>msg. Send m' e' v = (Some (ErrMachineStopped (Some e) msg), m', v, [])"
    using Send_stopped [OF d(2) d(1)] ev by simp
  ultimately show ?thesis
    using s by blast
qed

theorem Send_final_stops_witness:
  "started machine_middle \<and> \<not> done' machine_middle \<and>
   GetTransition (States machine_middle) (curr machine_middle) WorkComplete
     = Some work_complete \<and>
   IsFinal work_complete \<and>
   (\<exists>m' w' cs. Send machine_middle WorkComplete (world0\<lparr>workReallyComplete := True\<rparr>)
                 = (None, m', w', cs) \<and>
      lifecycle_of m' = Stopped \<and>
      fails_with is_ErrMachineStopped (fst (Send m' SetupDone w')) \<and>
      (\<exists>msg. fst (Send m' WorkComplete w') = Some (ErrMachineStopped (Some WorkComplete) msg)))"
proof -
  have h1: "started machine_middle" and h2: "\<not> done' machine_middle"
    by (simp_all add: machine_middle_eq)
  note h3 = machine_middle_WorkComplete
  have h4: "IsFinal work_complete"
    by (simp add: work_complete_def)
  have h5: "case Guard work_complete of None \<Rightarrow> True
            | Some g \<Rightarrow> fst (g (curr machine_middle) WorkComplete
                               (world0\<lparr>workReallyComplete := True\<rparr>))"
    by (simp add: work_complete_def)
  from Send_final_stops [OF h1 h2 h3 h4 h5] obtain m' w' cs where
    s: "Send machine_middle WorkComplete (world0\<lparr>workReallyComplete := True\<rparr>)
          = (None, m', w', cs)"
    and l: "lifecycle_of m' = Stopped"
    and f: "\<And>e' v. \<exists>msg. Send m' e' v = (Some (ErrMachineStopped (Some WorkComplete) msg), m', v, [])"
    by blast
  from f [of SetupDone w'] have "fails_with is_ErrMachineStopped (fst (Send m' SetupDone w'))"
    by (auto simp: fails_with_def)
  moreover from f [of WorkComplete w']
  have "\<exists>msg. fst (Send m' WorkComplete w') = Some (ErrMachineStopped (Some WorkComplete) msg)"
    by auto
  ultimately show ?thesis
    using s l h1 h2 h3 h4 by blast
qed

text \<open>
  C7. \<open>Start\<close> fails with \<open>ErrMissingStates\<close> exactly when the table is empty; with
  \<open>ErrStateNotDefined\<close> exactly when the table is not empty and the state is not one of
  its keys; with \<open>ErrMachineStopped\<close> exactly when, beyond that, the machine is stopped;
  with \<open>ErrMachineStarted\<close> exactly when, beyond that, it is not stopped but started.
  In the one remaining case it returns no error, the state given is both the current and
  the initial state, the machine is running and nothing else in it has changed; no hook
  is called and the hooks' environment is as before.
\<close>

theorem Start_outcomes:
  "(fails_with is_ErrMissingStates (fst (Start m s)) \<longleftrightarrow> States m = []) \<and>
   (fails_with is_ErrStateNotDefined (fst (Start m s)) \<longleftrightarrow>
      States m \<noteq> [] \<and> s \<notin> fst ` set (States m)) \<and>
   (fails_with is_ErrMachineStopped (fst (Start m s)) \<longleftrightarrow>
      States m \<noteq> [] \<and> s \<in> fst ` set (States m) \<and> done' m) \<and>
   (fails_with is_ErrMachineStarted (fst (Start m s)) \<longleftrightarrow>
      States m \<noteq> [] \<and> s \<in> fst ` set (States m) \<and> \<not> done' m \<and> started m) \<and>
   (fst (Start m s) = None \<longleftrightarrow>
      States m \<noteq> [] \<and> s \<in> fst ` set (States m) \<and> \<not> done' m \<and> \<not> started m) \<and>
   (fst (Start m s) = None \<longrightarrow>
      snd (Start m s) = m\<lparr>curr := s, initial := s, started := True\<rparr> \<and>
      Current (snd (Start m s)) = s \<and> initial (snd (Start m s)) = s \<and>
      lifecycle_of (snd (Start m s)) = Running \<and>
      exec (OpStart s) (m, w) = ((None, []), snd (Start m s), w))"
proof -
  consider (empty) "States m = []"
    | (undefined) "States m \<noteq> []" "s \<notin> fst ` set (States m)"
    | (stopped) "States m \<noteq> []" "s \<in> fst ` set (States m)" "done' m"
    | (started) "States m \<noteq> []" "s \<in> fst ` set (States m)" "\<not> done' m" "started m"
    | (fresh) "States m \<noteq> []" "s \<in> fst ` set (States m)" "\<not> done' m" "\<not> started m"
    by blast
  then show ?thesis
  proof cases
    case empty
    then show ?thesis by (simp add: Start_def fails_with_def)
  next
    case undefined
    then show ?thesis by (simp add: Start_def fails_with_def not_key_iff)
  next
    case stopped
    then show ?thesis by (simp add: Start_def fails_with_def not_key_iff)
  next
    case started
    then show ?thesis by (simp add: Start_def fails_with_def not_key_iff)
  next
    case fresh
    then show ?thesis
      by (simp add: Start_def fails_with_def not_key_iff Current_def lifecycle_of_def)
  qed
qed

theorem Start_outcomes_witness:
  "fst (Start machine Begin) = None \<and>
   snd (Start machine Begin) = machine\<lparr>curr := Begin, initial := Begin, started := True\<rparr> \<and>
   Current (snd (Start machine Begin)) = Begin \<and>
   lifecycle_of (snd (Start machine Begin)) = Running \<and>
   exec (OpStart Begin) (machine, world0) = ((None, []), snd (Start machine Begin), world0) \<and>
   fails_with is_ErrMissingStates (fst (Start machine_empty 1)) \<and>
   fails_with is_ErrStateNotDefined (fst (Start machine 3)) \<and>
   fails_with is_ErrMachineStopped (fst (Start (Stop machine) Begin)) \<and>
   fails_with is_ErrMachineStarted (fst (Start machine_begin Begin))"
proof -
  have k: "States machine \<noteq> []" "Begin \<in> fst ` set (States machine)"
    "States (Stop machine) = States machine" "States machine_begin = States machine"
    "3 \<notin> fst ` set (States machine)" "States machine_empty = []"
    by (simp_all add: machine_def new_Machine_def stt_def Stop_def stop_fields machine_begin_eq
        machine_empty_def Begin_def Middle_def End_def)
  have f: "\<not> done' machine" "\<not> started machine" "done' (Stop machine)"
    "\<not> done' machine_begin" "started machine_begin"
    by (simp_all add: machine_def new_Machine_def Stop_def stop_fields machine_begin_eq)
  have a: "fst (Start machine Begin) = None \<and>
      snd (Start machine Begin) = machine\<lparr>curr := Begin, initial := Begin, started := True\<rparr> \<and>
      Current (snd (Start machine Begin)) = Begin \<and>
      lifecycle_of (snd (Start machine Begin)) = Running \<and>
      exec (OpStart Begin) (machine, world0) = ((None, []), snd (Start machine Begin), world0)"
    using Start_outcomes [of machine Begin world0] k(1,2) f(1,2) by blast
  have b: "fails_with is_ErrMissingStates (fst (Start machine_empty 1))"
    using Start_outcomes [of machine_empty 1] k(6) by blast
  have c: "fails_with is_ErrStateNotDefined (fst (Start machine 3))"
    using Start_outcomes [of machine 3] k(1,5) by blast
  have d: "fails_with is_ErrMachineStopped (fst (Start (Stop machine) Begin))"
    using Start_outcomes [of "Stop machine" Begin] k(1,2,3) f(3) by metis
  have e: "fails_with is_ErrMachineStarted (fst (Start machine_begin Begin))"
    using Start_outcomes [of machine_begin Begin] k(1,2,4) f(4,5) by metis
  from a b c d e show ?thesis by blast
qed

text \<open>
  C8. Take a machine that is neither started nor stopped, as a new one is, and a state
  \<open>s\<close> that is a key of its table. Then \<open>Start s\<close> succeeds, and after \<open>Stop\<close> the
  \<open>Reset\<close> succeeds too; the machine it leaves has \<open>Current\<close> equal to \<open>s\<close> and an empty
  \<open>History\<close>, and \<open>Start s\<close> succeeds on it again.
\<close>

theorem start_stop_reset_round_trip:
  assumes "s \<in> fst ` set (States m)" and "\<not> started m" and "\<not> done' m"
  shows "\<exists>m1 m3. Start m s = (None, m1) \<and> Reset (Stop m1) = (None, m3) \<and>
           Current m3 = s \<and> History m3 = [] \<and> fst (Start m3 s) = None"
proof -
  from assms(1) have ne: "States m \<noteq> []" and k: "map_of (States m) s \<noteq> None"
    by (auto simp: not_key_iff)
  define m1 where "m1 = m\<lparr>curr := s, done' := False, initial := s, started := True\<rparr>"
  define m3 where "m3 = (Stop m1)\<lparr>done' := False, endevt := None, hist := [], curr := s,
                                   started := False\<rparr>"
  have 1: "Start m s = (None, m1)"
    using ne k assms(2,3) by (simp add: Start_def m1_def)
  have 2: "Reset (Stop m1) = (None, m3)"
    by (simp add: Reset_def Stop_def stop_fields m3_def m1_def)
  have 3: "Current m3 = s" "History m3 = []"
    by (simp_all add: Current_def History_def m3_def)
  have 4: "fst (Start m3 s) = None"
    using ne k by (simp add: Start_def m3_def Stop_def stop_fields m1_def)
  from 1 2 3 4 show ?thesis by blast
qed

theorem start_stop_reset_round_trip_witness:
  "Middle \<in> fst ` set (States machine) \<and> \<not> started machine \<and> \<not> done' machine \<and>
   fst (Start machine Middle) = None \<and>
   fst (Reset (Stop (snd (Start machine Middle)))) = None \<and>
   Current (snd (Reset (Stop (snd (Start machine Middle))))) = Middle \<and>
   History (snd (Reset (Stop (snd (Start machine Middle))))) = [] \<and>
   fst (Start (snd (Reset (Stop (snd (Start machine Middle))))) Middle) = None"
proof -
  have h1: "Middle \<in> fst ` set (States machine)"
    by (simp add: machine_def new_Machine_def stt_def)
  have h2: "\<not> started machine" and h3: "\<not> done' machine"
    by (simp_all add: machine_def new_Machine_def)
  from start_stop_reset_round_trip [OF h1 h2 h3] h1 h2 h3 show ?thesis
    by auto
qed

text \<open>
  C9, as amended. For every machine, \<open>Stop\<close> called twice leaves exactly the machine
  that \<open>Stop\<close> called once leaves, terminal event included, so a \<open>Start\<close> that follows
  has the same outcome in both cases. When the state given is a key of the machine's
  table, that outcome is a failure with \<open>ErrMachineStopped\<close>, carrying the terminal
  event recorded by \<open>Stop\<close> and leaving the stopped machine as it is.
\<close>

theorem Stop_idempotent:
  "Stop (Stop m) = Stop m \<and>
   Start (Stop (Stop m)) s = Start (Stop m) s \<and>
   (s \<in> fst ` set (States m) \<longrightarrow>
      fails_with is_ErrMachineStopped (fst (Start (Stop m) s)) \<and>
      fails_with is_ErrMachineStopped (fst (Start (Stop (Stop m)) s)) \<and>
      (\<exists>msg. Start (Stop m) s = (Some (ErrMachineStopped (endevt (Stop m)) msg), Stop m)))"
proof (intro conjI impI)
  show i: "Stop (Stop m) = Stop m"
    by (simp add: Stop_def stop_stop)
  then show "Start (Stop (Stop m)) s = Start (Stop m) s"
    by simp
  assume k: "s \<in> fst ` set (States m)"
  then have ne: "States (Stop m) \<noteq> []" and d: "map_of (States (Stop m)) s \<noteq> None"
    by (auto simp: Stop_def stop_fields not_key_iff)
  have "done' (Stop m)"
    by (simp add: Stop_def stop_fields)
  with ne d show e: "\<exists>msg. Start (Stop m) s =
      (Some (ErrMachineStopped (endevt (Stop m)) msg), Stop m)"
    by (simp add: Start_def)
  then show "fails_with is_ErrMachineStopped (fst (Start (Stop m) s))"
    by (auto simp: fails_with_def)
  with i show "fails_with is_ErrMachineStopped (fst (Start (Stop (Stop m)) s))"
    by simp
qed

theorem Stop_idempotent_witness:
  "Stop (Stop machine_middle) = Stop machine_middle \<and>
   Middle \<in> fst ` set (States machine_middle) \<and>
   fails_with is_ErrMachineStopped (fst (Start (Stop machine_middle) Middle)) \<and>
   fails_with is_ErrMachineStopped (fst (Start (Stop (Stop machine_middle)) Middle)) \<and>
   endevt (Stop machine_middle) = Some SetupDone"
proof -
  have h: "Middle \<in> fst ` set (States machine_middle)"
    by (simp add: machine_middle_eq stt_def)
  have e: "endevt (Stop machine_middle) = Some SetupDone"
    by (simp add: Stop_def stop_endevt machine_middle_eq)
  from Stop_idempotent [of machine_middle Middle] h e show ?thesis
    by blast
qed

theorem Start_after_Stop_without_table:
  "Stop (Stop machine_empty) = Stop machine_empty \<and>
   fst (Start (Stop machine_empty) 1) = Some (ErrMissingStates ''no states set'') \<and>
   fst (Start (Stop (Stop machine_empty)) 1) = Some (ErrMissingStates ''no states set'') \<and>
   \<not> fails_with is_ErrMachineStopped (fst (Start (Stop machine_empty) 1))"
  by (simp add: Start_def Stop_def stop_def fails_with_def test_defs)

text \<open>
  C10. Let the table's inner map for state \<open>s\<close> hold event \<open>e\<close> bound to a \<open>nil\<close>
  transition. Then \<open>GetTransition s e\<close> finds no transition; a \<open>Send e\<close> on a started,
  not stopped machine whose current state is \<open>s\<close> fails with \<open>ErrMissingTransition\<close>
  carrying \<open>s\<close> and \<open>e\<close>, changing nothing; and yet \<open>e\<close> is among the events that
  \<open>GetEventsForState s\<close> returns.
\<close>

theorem nil_transition_listed_but_missing:
  assumes "map_of (States m) s = Some evs" and "map_of evs e = Some None"
  shows "GetTransition (States m) s e = None \<and>
         (started m \<and> \<not> done' m \<and> curr m = s \<longrightarrow>
            fails_with is_ErrMissingTransition (fst (Send m e w)) \<and>
            (\<exists>msg. Send m e w = (Some (ErrMissingTransition s e msg), m, w, []))) \<and>
         e \<in> set (GetEventsForState (States m) s)"
proof (intro conjI impI)
  show g: "GetTransition (States m) s e = None"
    using assms by (simp add: GetTransition_def)
  from assms(2) have "(e, None) \<in> set evs"
    by (rule map_of_SomeD)
  then have "e \<in> fst ` set evs"
    by force
  with assms(1) show "e \<in> set (GetEventsForState (States m) s)"
    by (simp add: GetEventsForState_def range_loop_keys)
  assume r: "started m \<and> \<not> done' m \<and> curr m = s"
  with g show x: "\<exists>msg. Send m e w = (Some (ErrMissingTransition s e msg), m, w, [])"
    by (simp add: Send_def)
  then show "fails_with is_ErrMissingTransition (fst (Send m e w))"
    by (auto simp: fails_with_def)
qed

theorem nil_transition_listed_but_missing_witness:
  "map_of (States (snd (Start machine_nil 1))) 1 = Some [(1, None)] \<and>
   map_of [(1::Event, None :: unit Transition option)] 1 = Some None \<and>
   started (snd (Start machine_nil 1)) \<and> \<not> done' (snd (Start machine_nil 1)) \<and>
   curr (snd (Start machine_nil 1)) = 1 \<and>
   GetTransition (States (snd (Start machine_nil 1))) 1 1 = None \<and>
   fails_with is_ErrMissingTransition (fst (Send (snd (Start machine_nil 1)) 1 ())) \<and>
   1 \<in> set (GetEventsForState (States (snd (Start machine_nil 1))) 1)"
proof -
  let ?m = "snd (Start machine_nil 1)"
  have m: "?m = \<lparr>States = [(1, [(1, None)])], curr = 1, done' = False, endevt = None,
                  hist = [], initial = 1, started = True\<rparr>"
    by (simp add: Start_def machine_nil_def new_Machine_def)
  have h1: "map_of (States ?m) 1 = Some [(1, None)]"
    by (simp add: m)
  have h2: "map_of [(1::Event, None :: unit Transition option)] 1 = Some None"
    by simp
  have r: "started ?m \<and> \<not> done' ?m \<and> curr ?m = 1"
    by (simp add: m)
  from nil_transition_listed_but_missing [OF h1 h2, of "()"] h1 h2 r show ?thesis
    by blast
qed

end
